theory Spec2Isabelle
  imports Complex_Main
begin

section \<open>Data model of \<open>src/services/flask_backend.py\<close>\<close>

text \<open>
  The module keeps the enrolled students in the module-level dictionary
  \<open>students_data\<close>. A Python dictionary iterates in insertion order and holds each key
  once, so it is an association list whose keys are distinct; an entry is the dictionary
  \<open>{"id": ..., "name": ..., "descriptors": [...]}\<close> that \<open>register_student\<close> stores.
  The field \<open>id\<close> is written \<open>id'\<close>, since \<open>id\<close> is the identity function of HOL.

  A face embedding is whatever \<open>face_recognition.face_encodings\<close> produces (a vector of
  128 floating-point numbers); the module never looks inside one, so its type is the
  parameter \<open>'e\<close>. Distances and similarities are floating-point numbers in the source
  and real numbers here; a distance that is not a number fails both comparisons of
  \<open>find_best_match\<close> and is never selected.
\<close>

record 'e student =
  id' :: string
  name :: string
  descriptors :: "'e list"

type_synonym 'e students_data = "(string \<times> 'e student) list"

text \<open>The dictionary that \<open>find_best_match\<close> returns.\<close>

record match =
  studentId :: string
  studentName :: string
  similarity :: real

text \<open>
  \<open>students_data[student_id] = value\<close>: an existing key keeps its place in the iteration
  order and gets the new value, a new key goes to the end.
\<close>

fun setitem :: "('k \<times> 'v) list \<Rightarrow> 'k \<Rightarrow> 'v \<Rightarrow> ('k \<times> 'v) list" where
  "setitem [] k v = [(k, v)]"
| "setitem ((k', v') # kvs) k v =
     (if k' = k then (k, v) # kvs else (k', v') # setitem kvs k v)"

text \<open>
  The capabilities the module gets from outside: decoding a base64 string into a pixel
  image (\<open>base64_to_image\<close>, a wrapper of \<open>base64\<close> and \<open>PIL\<close>), and the three functions of
  the \<open>face_recognition\<close> library. \<open>None\<close> stands for a raised exception.
  \<open>face_distance lib d e\<close> is \<open>face_recognition.face_distance([d], e)[0]\<close>.
\<close>

record ('img, 'loc, 'e) library =
  base64_to_image :: "string \<Rightarrow> 'img option"
  face_locations :: "'img \<Rightarrow> 'loc list option"
  face_encodings :: "'img \<Rightarrow> 'loc list \<Rightarrow> 'e list option"
  face_distance :: "'e \<Rightarrow> 'e \<Rightarrow> real"

text \<open>
  The JSON body of a registration request; a missing key is \<open>None\<close> (\<open>data.get\<close>), and
  \<open>data.get('images', [])\<close> is the empty list when the key is missing.
\<close>

record registration =
  reg_id :: "string option"
  reg_name :: "string option"
  reg_images :: "string list"

text \<open>
  What a handler answers: \<open>{"success": True}\<close>; \<open>{"success": False, "message": m}\<close> with
  its HTTP status; the answer of the outer \<open>except\<close> of \<open>recognize_faces\<close> (status 500);
  the recognised faces; the student list; the answer of \<open>load_models\<close>.
\<close>

datatype response =
  Success
| Failure string nat
| Server_error
| Recognized "match list"
| Students "(string \<times> string) list"
| Models_ready

section \<open>\<open>find_best_match\<close>\<close>

text \<open>
  The two nested \<open>for\<close> loops carry the pair \<open>(best_match, best_distance)\<close>.
  \<open>descriptor_loop\<close> is the inner loop over \<open>student["descriptors"]\<close>, \<open>student_loop\<close> the
  outer loop over \<open>students_data.items()\<close>.
\<close>

fun descriptor_loop ::
  "('e \<Rightarrow> 'e \<Rightarrow> real) \<Rightarrow> 'e \<Rightarrow> real \<Rightarrow> string \<Rightarrow> 'e student \<Rightarrow> 'e list \<Rightarrow>
   match option \<times> real \<Rightarrow> match option \<times> real" where
  "descriptor_loop face_dist face_encoding threshold student_id student [] best = best"
| "descriptor_loop face_dist face_encoding threshold student_id student (descriptor # rest)
     (best_match, best_distance) =
     (let distance = face_dist descriptor face_encoding in
      if distance < best_distance \<and> distance < threshold
      then descriptor_loop face_dist face_encoding threshold student_id student rest
             (Some \<lparr>studentId = student_id, studentName = name student,
                    similarity = 1 - distance\<rparr>, distance)
      else descriptor_loop face_dist face_encoding threshold student_id student rest
             (best_match, best_distance))"

fun student_loop ::
  "('e \<Rightarrow> 'e \<Rightarrow> real) \<Rightarrow> 'e \<Rightarrow> real \<Rightarrow> 'e students_data \<Rightarrow>
   match option \<times> real \<Rightarrow> match option \<times> real" where
  "student_loop face_dist face_encoding threshold [] best = best"
| "student_loop face_dist face_encoding threshold ((student_id, student) # rest) best =
     student_loop face_dist face_encoding threshold rest
       (descriptor_loop face_dist face_encoding threshold student_id student
          (descriptors student) best)"

definition find_best_match ::
  "('e \<Rightarrow> 'e \<Rightarrow> real) \<Rightarrow> 'e students_data \<Rightarrow> 'e \<Rightarrow> real \<Rightarrow> match option" where
  "find_best_match face_dist students_data face_encoding threshold =
     (if students_data = [] then None
      else fst (student_loop face_dist face_encoding threshold students_data (None, 1.0)))"

text \<open>The default value of the parameter \<open>threshold\<close>.\<close>

definition default_threshold :: real where
  "default_threshold = 0.6"

section \<open>The request handlers\<close>

text \<open>
  The body of the \<open>try\<close> in the image loop of \<open>register_student\<close>: what one image appends
  to the local list \<open>descriptors\<close> (written \<open>descriptors'\<close>, the record field has the name). An exception anywhere in the body is caught and appends nothing, an
  image with no face or several faces is skipped.
\<close>

definition image_descriptors :: "('img, 'loc, 'e) library \<Rightarrow> string \<Rightarrow> 'e list" where
  "image_descriptors lib img_data =
     (case base64_to_image lib img_data of
        None \<Rightarrow> []
      | Some img \<Rightarrow>
          (case face_locations lib img of
             None \<Rightarrow> []
           | Some locations \<Rightarrow>
               if length locations \<noteq> 1 then []
               else (case face_encodings lib img locations of
                       None \<Rightarrow> []
                     | Some [] \<Rightarrow> []
                     | Some (encoding # _) \<Rightarrow> [encoding])))"

fun image_loop :: "('img, 'loc, 'e) library \<Rightarrow> string list \<Rightarrow> 'e list \<Rightarrow> 'e list" where
  "image_loop lib [] descriptors' = descriptors'"
| "image_loop lib (img_data # rest) descriptors' =
     image_loop lib rest (descriptors' @ image_descriptors lib img_data)"

text \<open>
  \<open>register_student\<close>: \<open>not student_id\<close> holds for a missing key and for the empty string.
  The handler returns its answer and the new value of \<open>students_data\<close>.
\<close>

definition register_student ::
  "('img, 'loc, 'e) library \<Rightarrow> 'e students_data \<Rightarrow> registration \<Rightarrow>
   response \<times> 'e students_data" where
  "register_student lib students_data data =
     (case (reg_id data, reg_name data) of
        (Some student_id, Some student_name) \<Rightarrow>
          if student_id = [] \<or> student_name = [] \<or> reg_images data = []
          then (Failure ''Missing required data'' 400, students_data)
          else
            (let descriptors' = image_loop lib (reg_images data) [] in
             if descriptors' = []
             then (Failure ''No valid face descriptors could be extracted'' 400,
                   students_data)
             else (Success,
                   setitem students_data student_id
                     \<lparr>id' = student_id, name = student_name,
                      descriptors = descriptors'\<rparr>))
      | _ \<Rightarrow> (Failure ''Missing required data'' 400, students_data))"

text \<open>
  The loop of \<open>recognize_faces\<close> over the encodings of the faces in the image; \<open>if match\<close>
  holds for every dictionary \<open>find_best_match\<close> returns, since it has three keys.
\<close>

fun encoding_loop ::
  "('e \<Rightarrow> 'e \<Rightarrow> real) \<Rightarrow> 'e students_data \<Rightarrow> 'e list \<Rightarrow> match list \<Rightarrow> match list" where
  "encoding_loop face_dist students_data [] recognized_faces = recognized_faces"
| "encoding_loop face_dist students_data (face_encoding # rest) recognized_faces =
     (case find_best_match face_dist students_data face_encoding default_threshold of
        None \<Rightarrow> encoding_loop face_dist students_data rest recognized_faces
      | Some m \<Rightarrow> encoding_loop face_dist students_data rest (recognized_faces @ [m]))"

definition recognize_faces ::
  "('img, 'loc, 'e) library \<Rightarrow> 'e students_data \<Rightarrow> string option \<Rightarrow>
   response \<times> 'e students_data" where
  "recognize_faces lib students_data image_data =
     (case image_data of
        None \<Rightarrow> (Failure ''No image provided'' 400, students_data)
      | Some b64 \<Rightarrow>
          if b64 = [] then (Failure ''No image provided'' 400, students_data)
          else
            (case base64_to_image lib b64 of
               None \<Rightarrow> (Server_error, students_data)
             | Some img \<Rightarrow>
                 (case face_locations lib img of
                    None \<Rightarrow> (Server_error, students_data)
                  | Some locations \<Rightarrow>
                      if locations = [] then (Recognized [], students_data)
                      else
                        (case face_encodings lib img locations of
                           None \<Rightarrow> (Server_error, students_data)
                         | Some encodings \<Rightarrow>
                             (Recognized
                                (encoding_loop (face_distance lib) students_data
                                   encodings []),
                              students_data)))))"

definition get_students :: "'e students_data \<Rightarrow> response \<times> 'e students_data" where
  "get_students students_data =
     (Students (map (\<lambda>(k, data). (id' data, name data)) students_data), students_data)"

definition load_models :: "'e students_data \<Rightarrow> response \<times> 'e students_data" where
  "load_models students_data = (Models_ready, students_data)"

text \<open>
  The requests that reach \<open>students_data\<close>, and the states of the dictionary that a
  sequence of requests can produce from the empty dictionary the module starts with.
\<close>

datatype request =
  Register_student registration
| Recognize_faces "string option"
| Get_students
| Load_models

fun handle ::
  "('img, 'loc, 'e) library \<Rightarrow> 'e students_data \<Rightarrow> request \<Rightarrow> response \<times> 'e students_data" where
  "handle lib students_data (Register_student data) = register_student lib students_data data"
| "handle lib students_data (Recognize_faces image_data) =
     recognize_faces lib students_data image_data"
| "handle lib students_data Get_students = get_students students_data"
| "handle lib students_data Load_models = load_models students_data"

fun run :: "('img, 'loc, 'e) library \<Rightarrow> 'e students_data \<Rightarrow> request list \<Rightarrow> 'e students_data" where
  "run lib students_data [] = students_data"
| "run lib students_data (r # rs) = run lib (snd (handle lib students_data r)) rs"

section \<open>Notions the properties are stated with\<close>

text \<open>
  The stored embeddings in the order the loops of \<open>find_best_match\<close> visit them, each with
  the key and the name of its student.
\<close>

definition candidates :: "'e students_data \<Rightarrow> (string \<times> string \<times> 'e) list" where
  "candidates students_data =
     concat (map (\<lambda>(student_id, student).
                    map (\<lambda>descriptor. (student_id, name student, descriptor))
                      (descriptors student))
               students_data)"

definition candidate_distance ::
  "('e \<Rightarrow> 'e \<Rightarrow> real) \<Rightarrow> 'e \<Rightarrow> string \<times> string \<times> 'e \<Rightarrow> real" where
  "candidate_distance face_dist face_encoding c = face_dist (snd (snd c)) face_encoding"

definition candidate_match ::
  "('e \<Rightarrow> 'e \<Rightarrow> real) \<Rightarrow> 'e \<Rightarrow> string \<times> string \<times> 'e \<Rightarrow> match" where
  "candidate_match face_dist face_encoding c =
     \<lparr>studentId = fst c, studentName = fst (snd c),
      similarity = 1 - candidate_distance face_dist face_encoding c\<rparr>"

text \<open>
  The Euclidean distance of two vectors of the same length, which is what
  \<open>face_recognition.face_distance\<close> computes; it instantiates the distance in the examples.
\<close>

definition euclidean :: "real list \<Rightarrow> real list \<Rightarrow> real" where
  "euclidean a b = sqrt (\<Sum>(x, y)\<leftarrow>zip a b. (x - y)\<^sup>2)"

text \<open>
  The two loops of \<open>find_best_match\<close> as one pass over \<open>candidates\<close>; the lemma
  \<open>student_loop_candidates\<close> below shows that it computes what the loops compute.
\<close>

fun candidate_loop ::
  "('e \<Rightarrow> 'e \<Rightarrow> real) \<Rightarrow> 'e \<Rightarrow> real \<Rightarrow> (string \<times> string \<times> 'e) list \<Rightarrow>
   match option \<times> real \<Rightarrow> match option \<times> real" where
  "candidate_loop face_dist face_encoding threshold [] best = best"
| "candidate_loop face_dist face_encoding threshold (c # rest) (best_match, best_distance) =
     (if candidate_distance face_dist face_encoding c < best_distance \<and>
         candidate_distance face_dist face_encoding c < threshold
      then candidate_loop face_dist face_encoding threshold rest
             (Some (candidate_match face_dist face_encoding c),
              candidate_distance face_dist face_encoding c)
      else candidate_loop face_dist face_encoding threshold rest (best_match, best_distance))"


section \<open>A small instance\<close>

text \<open>
  An instance of the outside capabilities for the examples: a picture is the list of
  the encodings of the faces on it, a face location is the index of a face, and four
  strings decode to a picture (every other string raises). Embeddings have two
  coordinates and lie on one line, so that all their distances are rational.
\<close>

definition example_pictures :: "string \<Rightarrow> real list list option" where
  "example_pictures b64 =
     (if b64 = ''alice'' then Some [[3/10, 2/5]]
      else if b64 = ''bob'' then Some [[9/10, 6/5]]
      else if b64 = ''nobody'' then Some []
      else if b64 = ''class'' then Some [[3/10, 2/5], [9/5, 12/5], [9/10, 6/5]]
      else None)"

definition example_library :: "(real list list, nat, real list) library" where
  "example_library =
     \<lparr>base64_to_image = example_pictures,
      face_locations = (\<lambda>img. Some [0..<length img]),
      face_encodings = (\<lambda>img locations. Some (map (\<lambda>i. img ! i) locations)),
      face_distance = euclidean\<rparr>"

definition alice_registration :: registration where
  "alice_registration =
     \<lparr>reg_id = Some ''s1'', reg_name = Some ''Alice'', reg_images = [''alice'']\<rparr>"

definition bob_registration :: registration where
  "bob_registration =
     \<lparr>reg_id = Some ''s2'', reg_name = Some ''Bob'',
      reg_images = [''nobody'', ''bob'', ''garbage'']\<rparr>"

definition alice_gallery :: "real list students_data" where
  "alice_gallery =
     [(''s1'', \<lparr>id' = ''s1'', name = ''Alice'', descriptors = [[3/10, 2/5]]\<rparr>)]"

definition alice_bob_gallery :: "real list students_data" where
  "alice_bob_gallery =
     [(''s1'', \<lparr>id' = ''s1'', name = ''Alice'', descriptors = [[3/10, 2/5]]\<rparr>),
      (''s2'', \<lparr>id' = ''s2'', name = ''Bob'', descriptors = [[9/10, 6/5]]\<rparr>)]"

section \<open>The loops as one pass over the candidates\<close>

lemma candidate_loop_append:
  "candidate_loop fd fe th (xs @ ys) best = candidate_loop fd fe th ys (candidate_loop fd fe th xs best)"
  by (induction xs arbitrary: best) (auto split: prod.splits)

lemma descriptor_loop_candidates:
  "descriptor_loop fd fe th k s ds best =
     candidate_loop fd fe th (map (\<lambda>d. (k, name s, d)) ds) best"
  by (induction ds arbitrary: best)
     (auto simp: candidate_distance_def candidate_match_def Let_def)

lemma student_loop_candidates:
  "student_loop fd fe th sd best = candidate_loop fd fe th (candidates sd) best"
  by (induction fd fe th sd best rule: student_loop.induct)
     (simp_all add: candidates_def candidate_loop_append descriptor_loop_candidates)

lemma find_best_match_candidates:
  "find_best_match fd sd fe th = fst (candidate_loop fd fe th (candidates sd) (None, 1))"
  by (simp add: find_best_match_def student_loop_candidates candidates_def)

lemma candidate_loop_unchanged:
  "\<forall>c\<in>set cs. \<not> (candidate_distance fd fe c < bd \<and> candidate_distance fd fe c < th) \<Longrightarrow>
   candidate_loop fd fe th cs (bm, bd) = (bm, bd)"
  by (induction cs) auto

lemma candidate_loop_winner:
  "\<exists>c\<in>set cs. candidate_distance fd fe c < bd \<and> candidate_distance fd fe c < th \<Longrightarrow>
   \<exists>pre c post. cs = pre @ c # post \<and>
     candidate_loop fd fe th cs (bm, bd) =
       (Some (candidate_match fd fe c), candidate_distance fd fe c) \<and>
     candidate_distance fd fe c < bd \<and> candidate_distance fd fe c < th \<and>
     (\<forall>x\<in>set pre. candidate_distance fd fe c < candidate_distance fd fe x) \<and>
     (\<forall>x\<in>set post. candidate_distance fd fe c \<le> candidate_distance fd fe x)"
proof (induction cs arbitrary: bm bd)
  case Nil
  then show ?case by simp
next
  case (Cons a rest)
  let ?cd = "candidate_distance fd fe"
  show ?case
  proof (cases "?cd a < bd \<and> ?cd a < th")
    case qualifies: True
    show ?thesis
    proof (cases "\<exists>c\<in>set rest. ?cd c < ?cd a \<and> ?cd c < th")
      case True
      from Cons.IH [OF True, of "Some (candidate_match fd fe a)"]
      obtain pre c post where w: "rest = pre @ c # post"
        "candidate_loop fd fe th rest (Some (candidate_match fd fe a), ?cd a) =
           (Some (candidate_match fd fe c), ?cd c)"
        "?cd c < ?cd a" "?cd c < th"
        "\<forall>x\<in>set pre. ?cd c < ?cd x" "\<forall>x\<in>set post. ?cd c \<le> ?cd x"
        by blast
      have "a # rest = (a # pre) @ c # post" using w(1) by simp
      moreover have "candidate_loop fd fe th (a # rest) (bm, bd) =
          (Some (candidate_match fd fe c), ?cd c)"
        using qualifies w(2) by simp
      moreover have "?cd c < bd" using w(3) qualifies by linarith
      moreover have "\<forall>x\<in>set (a # pre). ?cd c < ?cd x" using w(3,5) by simp
      ultimately show ?thesis using w(4,6) by blast
    next
      case False
      then have "candidate_loop fd fe th rest (Some (candidate_match fd fe a), ?cd a) =
          (Some (candidate_match fd fe a), ?cd a)"
        by (intro candidate_loop_unchanged) blast
      then have "candidate_loop fd fe th (a # rest) (bm, bd) =
          (Some (candidate_match fd fe a), ?cd a)"
        using qualifies by simp
      moreover have "a # rest = [] @ a # rest" by simp
      moreover have "\<forall>x\<in>set rest. ?cd a \<le> ?cd x"
        using False qualifies by force
      ultimately show ?thesis using qualifies by (metis empty_iff list.set(1))
    qed
  next
    case skipped: False
    with Cons.prems have ex: "\<exists>c\<in>set rest. ?cd c < bd \<and> ?cd c < th" by auto
    from Cons.IH [OF ex, of bm]
    obtain pre c post where w: "rest = pre @ c # post"
      "candidate_loop fd fe th rest (bm, bd) = (Some (candidate_match fd fe c), ?cd c)"
      "?cd c < bd" "?cd c < th"
      "\<forall>x\<in>set pre. ?cd c < ?cd x" "\<forall>x\<in>set post. ?cd c \<le> ?cd x"
      by blast
    have "a # rest = (a # pre) @ c # post" using w(1) by simp
    moreover have "candidate_loop fd fe th (a # rest) (bm, bd) =
        (Some (candidate_match fd fe c), ?cd c)"
      using skipped w(2) by auto
    moreover have "?cd c < ?cd a" using skipped w(3,4) by linarith
    then have "\<forall>x\<in>set (a # pre). ?cd c < ?cd x" using w(5) by simp
    ultimately show ?thesis using w(3,4,6) by blast
  qed
qed

lemma mem_candidates:
  "(k, n, d) \<in> set (candidates sd) \<longleftrightarrow>
     (\<exists>s. (k, s) \<in> set sd \<and> n = name s \<and> d \<in> set (descriptors s))"
  by (auto simp: candidates_def)

lemma find_best_match_None_iff:
  "find_best_match fd sd fe th = None \<longleftrightarrow>
     (\<forall>c\<in>set (candidates sd).
        \<not> (candidate_distance fd fe c < 1 \<and> candidate_distance fd fe c < th))"
proof (cases "\<exists>c\<in>set (candidates sd).
    candidate_distance fd fe c < 1 \<and> candidate_distance fd fe c < th")
  case True
  from candidate_loop_winner [OF True, of None]
  show ?thesis using True by (auto simp: find_best_match_candidates)
next
  case False
  then have "candidate_loop fd fe th (candidates sd) (None, 1) = (None, 1)"
    by (intro candidate_loop_unchanged) blast
  then show ?thesis using False by (simp add: find_best_match_candidates)
qed

lemma find_best_match_SomeD:
  assumes "find_best_match fd sd fe th = Some m"
  shows "\<exists>pre c post. candidates sd = pre @ c # post \<and> m = candidate_match fd fe c \<and>
     candidate_distance fd fe c < 1 \<and> candidate_distance fd fe c < th \<and>
     (\<forall>x\<in>set pre. candidate_distance fd fe c < candidate_distance fd fe x) \<and>
     (\<forall>x\<in>set post. candidate_distance fd fe c \<le> candidate_distance fd fe x)"
proof -
  from assms have "find_best_match fd sd fe th \<noteq> None" by simp
  then have ex: "\<exists>c\<in>set (candidates sd).
      candidate_distance fd fe c < 1 \<and> candidate_distance fd fe c < th"
    by (simp add: find_best_match_None_iff)
  from candidate_loop_winner [OF ex, of None]
  obtain pre c post where w: "candidates sd = pre @ c # post"
    "candidate_loop fd fe th (candidates sd) (None, 1) =
       (Some (candidate_match fd fe c), candidate_distance fd fe c)"
    "candidate_distance fd fe c < 1" "candidate_distance fd fe c < th"
    "\<forall>x\<in>set pre. candidate_distance fd fe c < candidate_distance fd fe x"
    "\<forall>x\<in>set post. candidate_distance fd fe c \<le> candidate_distance fd fe x"
    by blast
  from w(2) assms have "m = candidate_match fd fe c"
    by (simp add: find_best_match_candidates)
  with w(1,3,4,5,6) show ?thesis by blast
qed

lemma candidates_Cons:
  "candidates ((k, s) # sd) = map (\<lambda>d. (k, name s, d)) (descriptors s) @ candidates sd"
  by (simp add: candidates_def)

lemma candidates_append: "candidates (xs @ ys) = candidates xs @ candidates ys"
  by (simp add: candidates_def)

lemma candidates_split:
  "candidates sd = pre @ c # post \<Longrightarrow>
   \<exists>before s after. sd = before @ (fst c, s) # after \<and> fst (snd c) = name s \<and>
     snd (snd c) \<in> set (descriptors s) \<and>
     set (candidates before) \<subseteq> set pre"
proof (induction sd arbitrary: pre)
  case Nil
  then show ?case by (simp add: candidates_def)
next
  case (Cons a sd)
  obtain k s where a: "a = (k, s)" by (cases a)
  let ?block = "map (\<lambda>d. (k, name s, d)) (descriptors s)"
  from Cons.prems have eq: "?block @ candidates sd = pre @ c # post"
    by (simp add: a candidates_Cons)
  then consider
    (here) us where "?block = pre @ c # us"
  | (later) us where "pre = ?block @ us" "candidates sd = us @ c # post"
  proof -
    from eq obtain us where
      "?block = pre @ us \<and> us @ candidates sd = c # post \<or>
       ?block @ us = pre \<and> candidates sd = us @ c # post"
      unfolding append_eq_append_conv2 by blast
    then show ?thesis
    proof (elim disjE conjE)
      assume b: "?block = pre @ us" and u: "us @ candidates sd = c # post"
      show ?thesis
      proof (cases us)
        case Nil
        with b u show ?thesis using later [of "[]"] by simp
      next
        case (Cons u us')
        with b u show ?thesis using here [of us'] by simp
      qed
    next
      assume "?block @ us = pre" and "candidates sd = us @ c # post"
      then show ?thesis using later [of us] by simp
    qed
  qed
  then show ?case
  proof cases
    case here
    then have "c \<in> set ?block" by (metis in_set_conv_decomp)
    then have "fst c = k" "fst (snd c) = name s" "snd (snd c) \<in> set (descriptors s)"
      by auto
    then have "a # sd = [] @ (fst c, s) # sd \<and> fst (snd c) = name s \<and>
        snd (snd c) \<in> set (descriptors s) \<and> set (candidates []) \<subseteq> set pre"
      by (simp add: a candidates_def)
    then show ?thesis by blast
  next
    case later
    from Cons.IH [OF later(2)]
    obtain before s' after where w: "sd = before @ (fst c, s') # after"
      "fst (snd c) = name s'" "snd (snd c) \<in> set (descriptors s')"
      "set (candidates before) \<subseteq> set us" by blast
    have "a # sd = (a # before) @ (fst c, s') # after" using w(1) by simp
    moreover have "set (candidates (a # before)) \<subseteq> set pre"
      using w(4) later(1) by (auto simp: a candidates_Cons)
    ultimately show ?thesis using w(2,3) by blast
  qed
qed

section \<open>The dictionary and the handlers\<close>

lemma setitem_other:
  "filter (\<lambda>(k', v'). k' \<noteq> k) (setitem kvs k v) = filter (\<lambda>(k', v'). k' \<noteq> k) kvs"
  by (induction kvs) auto

lemma filter_absent: "k \<notin> fst ` set kvs \<Longrightarrow> filter (\<lambda>(k', v'). k' = k) kvs = []"
  by (induction kvs) auto

lemma setitem_same:
  "distinct (map fst kvs) \<Longrightarrow> filter (\<lambda>(k', v'). k' = k) (setitem kvs k v) = [(k, v)]"
  by (induction kvs) (auto simp: filter_absent)

lemma map_of_setitem: "map_of (setitem kvs k v) = (map_of kvs)(k \<mapsto> v)"
  by (induction kvs) auto

lemma keys_setitem:
  "map fst (setitem kvs k v) = (if k \<in> fst ` set kvs then map fst kvs else map fst kvs @ [k])"
  by (induction kvs) (force split: if_splits)+

lemma distinct_setitem: "distinct (map fst kvs) \<Longrightarrow> distinct (map fst (setitem kvs k v))"
  by (simp add: keys_setitem)

lemma set_setitem: "set (setitem kvs k v) \<subseteq> insert (k, v) (set kvs)"
  by (induction kvs) (auto split: if_splits)

lemma setitem_new: "k \<notin> fst ` set kvs \<Longrightarrow> setitem kvs k v = kvs @ [(k, v)]"
  by (induction kvs) auto

lemma register_student_cases:
  "register_student lib sd data = (Success, sd') \<longleftrightarrow>
     (\<exists>sid nm. reg_id data = Some sid \<and> reg_name data = Some nm \<and> sid \<noteq> [] \<and> nm \<noteq> [] \<and>
        reg_images data \<noteq> [] \<and> image_loop lib (reg_images data) [] \<noteq> [] \<and>
        sd' = setitem sd sid \<lparr>id' = sid, name = nm,
                descriptors = image_loop lib (reg_images data) []\<rparr>)"
  by (auto simp: register_student_def Let_def split: option.splits)

lemma register_student_unchanged:
  "fst (register_student lib sd data) \<noteq> Success \<Longrightarrow> snd (register_student lib sd data) = sd"
  by (auto simp: register_student_def Let_def split: option.splits)

lemma recognize_faces_store: "snd (recognize_faces lib sd image_data) = sd"
  by (simp add: recognize_faces_def split: option.splits)

lemma handle_invariant:
  assumes "\<forall>(k, s)\<in>set sd. descriptors s \<noteq> []"
  shows "\<forall>(k, s)\<in>set (snd (handle lib sd r)). descriptors s \<noteq> []"
proof (cases r)
  case (Register_student data)
  show ?thesis
  proof (cases "fst (register_student lib sd data) = Success")
    case True
    then have "register_student lib sd data = (Success, snd (register_student lib sd data))"
      by (metis prod.collapse)
    then obtain sid nm where r: "image_loop lib (reg_images data) [] \<noteq> []"
      "snd (register_student lib sd data) = setitem sd sid \<lparr>id' = sid, name = nm,
                descriptors = image_loop lib (reg_images data) []\<rparr>"
      unfolding register_student_cases by blast
    show ?thesis
      unfolding Register_student handle.simps r(2)
      using set_setitem [of sd sid "\<lparr>id' = sid, name = nm,
                descriptors = image_loop lib (reg_images data) []\<rparr>"] r(1) assms
      by auto
  next
    case False
    then show ?thesis using assms
      by (simp add: Register_student register_student_unchanged)
  qed
next
  case (Recognize_faces image_data)
  then show ?thesis using assms by (simp add: recognize_faces_store)
next
  case Get_students
  then show ?thesis using assms by (simp add: get_students_def)
next
  case Load_models
  then show ?thesis using assms by (simp add: load_models_def)
qed

lemma run_invariant:
  "\<forall>(k, s)\<in>set sd. descriptors s \<noteq> [] \<Longrightarrow>
   \<forall>(k, s)\<in>set (run lib sd rs). descriptors s \<noteq> []"
proof (induction rs arbitrary: sd)
  case Nil
  then show ?case by simp
next
  case (Cons r rs)
  from handle_invariant [OF Cons.prems]
  have "\<forall>(k, s)\<in>set (snd (handle lib sd r)). descriptors s \<noteq> []" .
  from Cons.IH [OF this] show ?case by simp
qed

lemma encoding_loop_map_filter:
  "encoding_loop fd sd probes acc =
     acc @ List.map_filter (\<lambda>probe. find_best_match fd sd probe default_threshold) probes"
  by (induction probes arbitrary: acc) (auto simp: List.map_filter_simps split: option.splits)

lemma length_map_filter: "length (List.map_filter f xs) \<le> length xs"
  by (simp add: List.map_filter_def)

lemma handle_distinct:
  assumes "distinct (map fst sd)"
  shows "distinct (map fst (snd (handle lib sd r)))"
proof (cases r)
  case (Register_student data)
  show ?thesis
  proof (cases "fst (register_student lib sd data) = Success")
    case True
    then have "register_student lib sd data = (Success, snd (register_student lib sd data))"
      by (metis prod.collapse)
    then obtain sid v where "snd (register_student lib sd data) = setitem sd sid v"
      unfolding register_student_cases by blast
    then show ?thesis using assms by (simp add: Register_student distinct_setitem)
  next
    case False
    then show ?thesis using assms
      by (simp add: Register_student register_student_unchanged)
  qed
next
  case (Recognize_faces image_data)
  then show ?thesis using assms by (simp add: recognize_faces_store)
next
  case Get_students
  then show ?thesis using assms by (simp add: get_students_def)
next
  case Load_models
  then show ?thesis using assms by (simp add: load_models_def)
qed

lemma run_distinct: "distinct (map fst sd) \<Longrightarrow> distinct (map fst (run lib sd rs))"
  by (induction rs arbitrary: sd) (simp_all add: handle_distinct)

section \<open>The small instance, evaluated\<close>

lemma euclidean_nonneg: "0 \<le> euclidean a b"
  unfolding euclidean_def by (intro real_sqrt_ge_zero sum_list_nonneg) auto

lemma euclidean_2: "euclidean [x1, x2] [y1, y2] = sqrt ((x1 - y1)\<^sup>2 + (x2 - y2)\<^sup>2)"
  by (simp add: euclidean_def)

lemmas example_simps =
  register_student_def image_descriptors_def example_library_def example_pictures_def
  alice_registration_def bob_registration_def alice_gallery_def alice_bob_gallery_def
  find_best_match_def default_threshold_def Let_def
  euclidean_2 power2_eq_square real_sqrt_divide

lemma alice_gallery_reached:
  "run example_library [] [Register_student alice_registration] = alice_gallery"
  by (simp add: example_simps)

lemma alice_bob_gallery_reached:
  "run example_library []
     [Register_student alice_registration, Register_student bob_registration] =
   alice_bob_gallery"
  by (simp add: example_simps)

section \<open>The sentinel and the threshold\<close>

text \<open>
  C1. \<open>find_best_match\<close> returns a match exactly when some stored embedding is at a
  distance from the probe below \<open>min threshold 1\<close>, and the match it returns is that of
  a stored embedding at a distance below \<open>1\<close> and below \<open>threshold\<close>: the accumulator
  \<open>best_distance\<close> starts at \<open>1.0\<close>, so a threshold above \<open>1\<close> admits nothing more than
  the threshold \<open>1\<close> does.
\<close>

theorem find_best_match_cutoff_min_threshold_one:
  "(find_best_match fd sd fe th \<noteq> None \<longleftrightarrow>
      (\<exists>c\<in>set (candidates sd). candidate_distance fd fe c < min th 1)) \<and>
   (\<forall>m. find_best_match fd sd fe th = Some m \<longrightarrow>
      (\<exists>c\<in>set (candidates sd). m = candidate_match fd fe c \<and>
         candidate_distance fd fe c < 1 \<and> candidate_distance fd fe c < th))"
proof (intro conjI allI impI)
  show "find_best_match fd sd fe th \<noteq> None \<longleftrightarrow>
      (\<exists>c\<in>set (candidates sd). candidate_distance fd fe c < min th 1)"
    by (auto simp: find_best_match_None_iff)
next
  fix m assume "find_best_match fd sd fe th = Some m"
  from find_best_match_SomeD [OF this]
  show "\<exists>c\<in>set (candidates sd). m = candidate_match fd fe c \<and>
         candidate_distance fd fe c < 1 \<and> candidate_distance fd fe c < th"
    by auto
qed

text \<open>
  With the threshold \<open>2\<close>: the probe \<open>[3/2, 2]\<close> is at distance \<open>2\<close> from Alice's embedding
  and at distance \<open>1\<close> from Bob's, which is below the threshold and still no match; the
  probe \<open>[0, 0]\<close> is at distance \<open>1/2\<close> from Alice's embedding and matches her.
\<close>

theorem find_best_match_cutoff_min_threshold_one_witness:
  "candidate_distance euclidean [3/2, 2] (''s2'', ''Bob'', [9/10, 6/5]) = 1 \<and>
   find_best_match euclidean alice_bob_gallery [3/2, 2] 2 = None \<and>
   \<not> (\<exists>c\<in>set (candidates alice_bob_gallery).
         candidate_distance euclidean [3/2, 2] c < min 2 1) \<and>
   find_best_match euclidean alice_bob_gallery [0, 0] 2 =
     Some \<lparr>studentId = ''s1'', studentName = ''Alice'', similarity = 1/2\<rparr> \<and>
   (\<exists>c\<in>set (candidates alice_bob_gallery).
      \<lparr>studentId = ''s1'', studentName = ''Alice'', similarity = 1/2\<rparr> =
        candidate_match euclidean [0, 0] c \<and>
      candidate_distance euclidean [0, 0] c < 1 \<and>
      candidate_distance euclidean [0, 0] c < 2)"
proof -
  have d: "candidate_distance euclidean [3/2, 2] (''s2'', ''Bob'', [9/10, 6/5]) = 1"
    by (simp add: candidate_distance_def example_simps)
  have none: "find_best_match euclidean alice_bob_gallery [3/2, 2] 2 = None"
    by (simp add: example_simps)
  have some: "find_best_match euclidean alice_bob_gallery [0, 0] 2 =
      Some \<lparr>studentId = ''s1'', studentName = ''Alice'', similarity = 1/2\<rparr>"
    by (simp add: example_simps)
  from find_best_match_cutoff_min_threshold_one
         [of euclidean alice_bob_gallery "[3/2, 2]" 2]
       find_best_match_cutoff_min_threshold_one
         [of euclidean alice_bob_gallery "[0, 0]" 2]
       d none some
  show ?thesis by simp
qed

text \<open>
  C2. When the gallery is not empty and the least distance between the probe and a
  stored embedding is exactly \<open>threshold\<close>, \<open>find_best_match\<close> returns \<open>None\<close>. One
  step of the inner loop replaces the best match only when the distance is strictly
  below \<open>best_distance\<close> and strictly below \<open>threshold\<close>.
\<close>

theorem find_best_match_threshold_boundary:
  assumes "sd \<noteq> []" and "candidates sd \<noteq> []"
    and "Min (set (map (candidate_distance fd fe) (candidates sd))) = th"
  shows "find_best_match fd sd fe th = None \<and>
     descriptor_loop fd fe th k s [d] (bm, bd) =
       (if fd d fe < bd \<and> fd d fe < th
        then (Some \<lparr>studentId = k, studentName = name s, similarity = 1 - fd d fe\<rparr>,
              fd d fe)
        else (bm, bd))"
proof
  let ?ds = "map (candidate_distance fd fe) (candidates sd)"
  have "th \<le> candidate_distance fd fe c" if "c \<in> set (candidates sd)" for c
  proof -
    from that have "candidate_distance fd fe c \<in> set ?ds" by simp
    then have "Min (set ?ds) \<le> candidate_distance fd fe c"
      by (intro Min_le) simp_all
    with assms(3) show ?thesis by simp
  qed
  then show "find_best_match fd sd fe th = None"
    by (fastforce simp: find_best_match_None_iff)
next
  show "descriptor_loop fd fe th k s [d] (bm, bd) =
       (if fd d fe < bd \<and> fd d fe < th
        then (Some \<lparr>studentId = k, studentName = name s, similarity = 1 - fd d fe\<rparr>,
              fd d fe)
        else (bm, bd))"
    by (simp add: Let_def)
qed

text \<open>
  The probe \<open>[-3/50, -2/25]\<close> is at distance \<open>3/5\<close> from Alice's embedding and \<open>8/5\<close> from
  Bob's; with the threshold \<open>3/5\<close> nobody matches.
\<close>

theorem find_best_match_threshold_boundary_witness:
  "alice_bob_gallery \<noteq> [] \<and> candidates alice_bob_gallery \<noteq> [] \<and>
   Min (set (map (candidate_distance euclidean [-3/50, -2/25])
               (candidates alice_bob_gallery))) = 3/5 \<and>
   find_best_match euclidean alice_bob_gallery [-3/50, -2/25] (3/5) = None \<and>
   descriptor_loop euclidean [-3/50, -2/25] (3/5) ''s1''
       \<lparr>id' = ''s1'', name = ''Alice'', descriptors = [[3/10, 2/5]]\<rparr> [[3/10, 2/5]]
       (None, 1) = (None, 1)"
proof -
  have h1: "alice_bob_gallery \<noteq> []" by (simp add: alice_bob_gallery_def)
  have h2: "candidates alice_bob_gallery \<noteq> []"
    by (simp add: candidates_def alice_bob_gallery_def)
  have h3: "Min (set (map (candidate_distance euclidean [-3/50, -2/25])
               (candidates alice_bob_gallery))) = 3/5"
    by (simp add: candidates_def candidate_distance_def example_simps)
  have d: "euclidean [3/10, 2/5] [-3/50, -2/25] = 3/5"
    by (simp add: example_simps)
  from find_best_match_threshold_boundary [OF h1 h2 h3, of "''s1''"
         "\<lparr>id' = ''s1'', name = ''Alice'', descriptors = [[3/10, 2/5]]\<rparr>" "[3/10, 2/5]"
         None 1]
  show ?thesis using h1 h2 h3 d by simp
qed

section \<open>Ties\<close>

text \<open>
  C3. The match that \<open>find_best_match\<close> returns is that of the first stored embedding,
  in the order of the loops (students in the order of the dictionary, and the
  descriptors of a student in the order of the list), among those at the least distance
  from the probe: every embedding before it is strictly farther, no embedding is
  nearer. In terms of the students: every embedding of every student that comes
  earlier in the dictionary is strictly farther from the probe than the winning one, so
  of several students at the same least distance the earliest in the dictionary wins.
  The result is a function of the dictionary, the probe and the threshold.
\<close>

theorem find_best_match_first_seen_wins:
  assumes "find_best_match fd sd fe th = Some m"
  shows "(\<exists>i<length (candidates sd).
            m = candidate_match fd fe (candidates sd ! i) \<and>
            (\<forall>j<length (candidates sd).
               candidate_distance fd fe (candidates sd ! i)
                 \<le> candidate_distance fd fe (candidates sd ! j)) \<and>
            (\<forall>j<i. candidate_distance fd fe (candidates sd ! i)
                 < candidate_distance fd fe (candidates sd ! j))) \<and>
         (\<exists>before k s after d.
            sd = before @ (k, s) # after \<and> d \<in> set (descriptors s) \<and>
            m = \<lparr>studentId = k, studentName = name s, similarity = 1 - fd d fe\<rparr> \<and>
            (\<forall>(k', s')\<in>set before. \<forall>d'\<in>set (descriptors s'). fd d fe < fd d' fe) \<and>
            (\<forall>(k', s')\<in>set sd. \<forall>d'\<in>set (descriptors s'). fd d fe \<le> fd d' fe))"
proof -
  let ?cd = "candidate_distance fd fe"
  from find_best_match_SomeD [OF assms]
  obtain pre c post where w: "candidates sd = pre @ c # post"
    "m = candidate_match fd fe c"
    "\<forall>x\<in>set pre. ?cd c < ?cd x" "\<forall>x\<in>set post. ?cd c \<le> ?cd x"
    by blast
  have c_at: "candidates sd ! length pre = c" by (simp add: w(1))
  have all: "?cd c \<le> ?cd x" if "x \<in> set (candidates sd)" for x
    using that w(3,4) unfolding w(1) by fastforce
  have idx: "\<exists>i<length (candidates sd).
            m = candidate_match fd fe (candidates sd ! i) \<and>
            (\<forall>j<length (candidates sd). ?cd (candidates sd ! i) \<le> ?cd (candidates sd ! j)) \<and>
            (\<forall>j<i. ?cd (candidates sd ! i) < ?cd (candidates sd ! j))"
  proof (intro exI [of _ "length pre"] conjI allI impI)
    show "length pre < length (candidates sd)" by (simp add: w(1))
    show "m = candidate_match fd fe (candidates sd ! length pre)"
      by (simp add: c_at w(2))
    show "?cd (candidates sd ! length pre) \<le> ?cd (candidates sd ! j)"
      if "j < length (candidates sd)" for j
      using all [of "candidates sd ! j"] that by (simp add: c_at)
    show "?cd (candidates sd ! length pre) < ?cd (candidates sd ! j)"
      if "j < length pre" for j
    proof -
      from that have "candidates sd ! j = pre ! j" by (simp add: w(1) nth_append)
      moreover from that have "pre ! j \<in> set pre" by simp
      ultimately show ?thesis using w(3) by (simp add: c_at)
    qed
  qed
  from candidates_split [OF w(1)]
  obtain before s after where sp: "sd = before @ (fst c, s) # after"
    "fst (snd c) = name s" "snd (snd c) \<in> set (descriptors s)"
    "set (candidates before) \<subseteq> set pre" by blast
  let ?d = "snd (snd c)"
  have m_eq: "m = \<lparr>studentId = fst c, studentName = name s, similarity = 1 - fd ?d fe\<rparr>"
    by (simp add: w(2) candidate_match_def sp(2) candidate_distance_def)
  have before: "fd ?d fe < fd d' fe"
    if "(k', s') \<in> set before" "d' \<in> set (descriptors s')" for k' s' d'
  proof -
    from that have "(k', name s', d') \<in> set (candidates before)"
      by (auto simp: mem_candidates)
    with sp(4) have "(k', name s', d') \<in> set pre" by blast
    with w(3) have "?cd c < ?cd (k', name s', d')" by blast
    then show ?thesis by (simp add: candidate_distance_def)
  qed
  have overall: "fd ?d fe \<le> fd d' fe"
    if "(k', s') \<in> set sd" "d' \<in> set (descriptors s')" for k' s' d'
  proof -
    from that have "(k', name s', d') \<in> set (candidates sd)"
      by (auto simp: mem_candidates)
    from all [OF this] show ?thesis by (simp add: candidate_distance_def)
  qed
  have "\<exists>before k s after d.
            sd = before @ (k, s) # after \<and> d \<in> set (descriptors s) \<and>
            m = \<lparr>studentId = k, studentName = name s, similarity = 1 - fd d fe\<rparr> \<and>
            (\<forall>(k', s')\<in>set before. \<forall>d'\<in>set (descriptors s'). fd d fe < fd d' fe) \<and>
            (\<forall>(k', s')\<in>set sd. \<forall>d'\<in>set (descriptors s'). fd d fe \<le> fd d' fe)"
    using sp(1,3) m_eq before overall by blast
  with idx show ?thesis by blast
qed

text \<open>
  Alice is registered, then Bob. The probe \<open>[3/5, 4/5]\<close> is at distance \<open>1/2\<close> from the
  embedding of Alice and from that of Bob; Alice was registered first and wins.
\<close>

theorem find_best_match_first_seen_wins_witness:
  "run example_library []
     [Register_student alice_registration, Register_student bob_registration] =
     alice_bob_gallery \<and>
   euclidean [3/10, 2/5] [3/5, 4/5] = euclidean [9/10, 6/5] [3/5, 4/5] \<and>
   find_best_match euclidean alice_bob_gallery [3/5, 4/5] (3/5) =
     Some \<lparr>studentId = ''s1'', studentName = ''Alice'', similarity = 1/2\<rparr> \<and>
   (\<exists>before k s after d.
      alice_bob_gallery = before @ (k, s) # after \<and> d \<in> set (descriptors s) \<and>
      \<lparr>studentId = ''s1'', studentName = ''Alice'', similarity = 1/2\<rparr> =
        \<lparr>studentId = k, studentName = name s,
         similarity = 1 - euclidean d [3/5, 4/5]\<rparr> \<and>
      (\<forall>(k', s')\<in>set before. \<forall>d'\<in>set (descriptors s').
         euclidean d [3/5, 4/5] < euclidean d' [3/5, 4/5]) \<and>
      (\<forall>(k', s')\<in>set alice_bob_gallery. \<forall>d'\<in>set (descriptors s').
         euclidean d [3/5, 4/5] \<le> euclidean d' [3/5, 4/5]))"
proof -
  have tie: "euclidean [3/10, 2/5] [3/5, 4/5] = euclidean [9/10, 6/5] [3/5, 4/5]"
    by (simp add: example_simps)
  have h: "find_best_match euclidean alice_bob_gallery [3/5, 4/5] (3/5) =
      Some \<lparr>studentId = ''s1'', studentName = ''Alice'', similarity = 1/2\<rparr>"
    by (simp add: example_simps)
  from find_best_match_first_seen_wins [OF h] tie h alice_bob_gallery_reached
  show ?thesis by blast
qed

section \<open>Registration\<close>

text \<open>
  C4. A successful \<open>register_student\<close> leaves exactly one entry under the student's
  key, which holds the name and exactly the descriptors extracted from the images of
  this request, whatever was stored under the key before. Afterwards a match that
  names this student comes from one of the new descriptors, so an earlier embedding
  of the student no longer matches through itself.
\<close>

theorem register_student_replaces_entry:
  assumes "distinct (map fst sd)" and "register_student lib sd data = (Success, sd')"
  shows "\<exists>sid nm. reg_id data = Some sid \<and> reg_name data = Some nm \<and>
     image_loop lib (reg_images data) [] \<noteq> [] \<and>
     filter (\<lambda>(k, s). k = sid) sd' =
       [(sid, \<lparr>id' = sid, name = nm, descriptors = image_loop lib (reg_images data) []\<rparr>)] \<and>
     (\<forall>fd fe th m. find_best_match fd sd' fe th = Some m \<and> studentId m = sid \<longrightarrow>
        studentName m = nm \<and>
        (\<exists>d\<in>set (image_loop lib (reg_images data) []). similarity m = 1 - fd d fe))"
proof -
  let ?ds = "image_loop lib (reg_images data) []"
  from assms(2) obtain sid nm where r: "reg_id data = Some sid" "reg_name data = Some nm"
    "?ds \<noteq> []" "sd' = setitem sd sid \<lparr>id' = sid, name = nm, descriptors = ?ds\<rparr>"
    unfolding register_student_cases by blast
  let ?entry = "\<lparr>id' = sid, name = nm, descriptors = ?ds\<rparr>"
  have only: "filter (\<lambda>(k, s). k = sid) sd' = [(sid, ?entry)]"
    unfolding r(4) using assms(1) by (rule setitem_same)
  have entry: "s = ?entry" if "(sid, s) \<in> set sd'" for s
  proof -
    from that have "(sid, s) \<in> set (filter (\<lambda>(k, s). k = sid) sd')" by simp
    then show ?thesis unfolding only by simp
  qed
  have "studentName m = nm \<and> (\<exists>d\<in>set ?ds. similarity m = 1 - fd d fe)"
    if "find_best_match fd sd' fe th = Some m" "studentId m = sid" for fd fe th m
  proof -
    from find_best_match_SomeD [OF that(1)]
    obtain pre c post where "candidates sd' = pre @ c # post" "m = candidate_match fd fe c"
      by blast
    then have c: "c \<in> set (candidates sd')" "m = candidate_match fd fe c" by simp_all
    from c(2) that(2) have "fst c = sid" by (simp add: candidate_match_def)
    with c(1) have "(sid, fst (snd c), snd (snd c)) \<in> set (candidates sd')"
      by (metis prod.collapse)
    then obtain s where s: "(sid, s) \<in> set sd'" "fst (snd c) = name s"
      "snd (snd c) \<in> set (descriptors s)"
      unfolding mem_candidates by blast
    from entry [OF s(1)] s(2,3) have "fst (snd c) = nm" "snd (snd c) \<in> set ?ds" by simp_all
    then show ?thesis
      using c(2) by (auto simp: candidate_match_def candidate_distance_def)
  qed
  with r(1,2,3) only show ?thesis by blast
qed

text \<open>
  Alice is registered with the embedding \<open>[3/10, 2/5]\<close> and matches a probe equal to
  it; registered again under the same key with the picture \<open>bob\<close>, she holds only
  \<open>[9/10, 6/5]\<close>, at distance \<open>1\<close> from that probe, which matches nobody any more.
\<close>

theorem register_student_replaces_entry_witness:
  "distinct (map fst alice_gallery) \<and>
   find_best_match euclidean alice_gallery [3/10, 2/5] (3/5) =
     Some \<lparr>studentId = ''s1'', studentName = ''Alice'', similarity = 1\<rparr> \<and>
   register_student example_library alice_gallery
       \<lparr>reg_id = Some ''s1'', reg_name = Some ''Alice'', reg_images = [''bob'']\<rparr> =
     (Success, [(''s1'', \<lparr>id' = ''s1'', name = ''Alice'', descriptors = [[9/10, 6/5]]\<rparr>)]) \<and>
   find_best_match euclidean
       [(''s1'', \<lparr>id' = ''s1'', name = ''Alice'', descriptors = [[9/10, 6/5]]\<rparr>)]
       [3/10, 2/5] (3/5) = None \<and>
   (\<exists>sid nm. Some ''s1'' = Some sid \<and> Some ''Alice'' = Some nm \<and>
      image_loop example_library [''bob''] [] \<noteq> [] \<and>
      filter (\<lambda>(k, s). k = sid)
          [(''s1'', \<lparr>id' = ''s1'', name = ''Alice'', descriptors = [[9/10, 6/5]]\<rparr>)] =
        [(sid, \<lparr>id' = sid, name = nm,
                descriptors = image_loop example_library [''bob''] []\<rparr>)])"
proof -
  have h1: "distinct (map fst alice_gallery)" by (simp add: alice_gallery_def)
  have h2: "register_student example_library alice_gallery
       \<lparr>reg_id = Some ''s1'', reg_name = Some ''Alice'', reg_images = [''bob'']\<rparr> =
     (Success, [(''s1'', \<lparr>id' = ''s1'', name = ''Alice'', descriptors = [[9/10, 6/5]]\<rparr>)])"
    by (simp add: example_simps)
  have before: "find_best_match euclidean alice_gallery [3/10, 2/5] (3/5) =
      Some \<lparr>studentId = ''s1'', studentName = ''Alice'', similarity = 1\<rparr>"
    by (simp add: example_simps)
  have after: "find_best_match euclidean
       [(''s1'', \<lparr>id' = ''s1'', name = ''Alice'', descriptors = [[9/10, 6/5]]\<rparr>)]
       [3/10, 2/5] (3/5) = None"
    by (simp add: example_simps)
  from register_student_replaces_entry [OF h1 h2] h1 h2 before after
  show ?thesis by simp
qed

text \<open>
  C5. When no descriptor can be extracted from the images of a registration request
  (the list \<open>descriptors\<close> is empty after the image loop, which includes a request with
  no image), \<open>register_student\<close> answers with a failure of status 400 and
  \<open>students_data\<close> is what it was: no entry is added and none is changed. When the
  identifier, the name and the image list are present, the failure is the one of the
  check \<open>if not descriptors\<close>.
\<close>

theorem register_student_no_descriptors_rejected:
  assumes "image_loop lib (reg_images data) [] = []"
  shows "snd (register_student lib sd data) = sd \<and>
     (\<exists>message. fst (register_student lib sd data) = Failure message 400) \<and>
     (\<forall>sid nm. reg_id data = Some sid \<and> sid \<noteq> [] \<and> reg_name data = Some nm \<and> nm \<noteq> [] \<and>
        reg_images data \<noteq> [] \<longrightarrow>
        fst (register_student lib sd data) =
          Failure ''No valid face descriptors could be extracted'' 400)"
  using assms by (auto simp: register_student_def Let_def split: option.splits)

text \<open>
  A request whose two images show no face and do not decode: it is rejected, and Carol
  is not in the dictionary afterwards.
\<close>

theorem register_student_no_descriptors_rejected_witness:
  "image_loop example_library [''nobody'', ''garbage''] [] = [] \<and>
   register_student example_library alice_bob_gallery
       \<lparr>reg_id = Some ''s3'', reg_name = Some ''Carol'',
        reg_images = [''nobody'', ''garbage'']\<rparr> =
     (Failure ''No valid face descriptors could be extracted'' 400, alice_bob_gallery)"
proof -
  let ?data = "\<lparr>reg_id = Some ''s3'', reg_name = Some ''Carol'',
        reg_images = [''nobody'', ''garbage'']\<rparr>"
  have h: "image_loop example_library (reg_images ?data) [] = []"
    by (simp add: example_simps)
  from register_student_no_descriptors_rejected [OF h, of alice_bob_gallery] h
  show ?thesis by (simp add: prod_eq_iff)
qed

text \<open>
  C6. If every student in \<open>students_data\<close> has at least one descriptor, this is so
  after any request is handled (registration, recognition, student list, model
  loading); hence in every state that a sequence of requests produces from the empty
  dictionary, every student has at least one descriptor.
\<close>

theorem students_have_descriptors:
  "((\<forall>(k, s)\<in>set sd. descriptors s \<noteq> []) \<longrightarrow>
      (\<forall>(k, s)\<in>set (snd (handle lib sd r)). descriptors s \<noteq> [])) \<and>
   (\<forall>(k, s)\<in>set (run lib [] rs). descriptors s \<noteq> [])"
proof
  show "(\<forall>(k, s)\<in>set sd. descriptors s \<noteq> []) \<longrightarrow>
      (\<forall>(k, s)\<in>set (snd (handle lib sd r)). descriptors s \<noteq> [])"
    using handle_invariant by blast
  show "\<forall>(k, s)\<in>set (run lib [] rs). descriptors s \<noteq> []"
    by (rule run_invariant) simp
qed

text \<open>
  Five requests, one of them a registration that fails: the dictionary holds Alice and
  Bob, each with a descriptor.
\<close>

theorem students_have_descriptors_witness:
  "list_all (\<lambda>(k, s). descriptors s \<noteq> []) alice_gallery \<and>
   snd (handle example_library alice_gallery (Register_student bob_registration)) =
     alice_bob_gallery \<and>
   list_all (\<lambda>(k, s). descriptors s \<noteq> [])
     (snd (handle example_library alice_gallery (Register_student bob_registration))) \<and>
   run example_library []
     [Register_student alice_registration,
      Register_student \<lparr>reg_id = Some ''s3'', reg_name = Some ''Carol'',
                        reg_images = [''nobody'']\<rparr>,
      Recognize_faces (Some ''class''), Get_students,
      Register_student bob_registration] = alice_bob_gallery \<and>
   list_all (\<lambda>(k, s). descriptors s \<noteq> [])
     (run example_library []
        [Register_student alice_registration,
         Register_student \<lparr>reg_id = Some ''s3'', reg_name = Some ''Carol'',
                           reg_images = [''nobody'']\<rparr>,
         Recognize_faces (Some ''class''), Get_students,
         Register_student bob_registration])"
proof -
  let ?rs = "[Register_student alice_registration,
      Register_student \<lparr>reg_id = Some ''s3'', reg_name = Some ''Carol'',
                        reg_images = [''nobody'']\<rparr>,
      Recognize_faces (Some ''class''), Get_students,
      Register_student bob_registration]"
  have h: "\<forall>(k, s)\<in>set alice_gallery. descriptors s \<noteq> []"
    by (simp add: alice_gallery_def)
  have step: "snd (handle example_library alice_gallery (Register_student bob_registration)) =
     alice_bob_gallery"
    by (simp add: example_simps)
  have run: "run example_library [] ?rs = alice_bob_gallery"
    by (simp add: example_simps recognize_faces_store get_students_def)
  from students_have_descriptors
         [of alice_gallery example_library "Register_student bob_registration" ?rs]
       h step run
  show ?thesis unfolding list_all_iff by simp
qed

section \<open>The similarity score\<close>

text \<open>
  C7. \<open>find_best_match\<close> returns at most one match (its result is \<open>None\<close> or one
  dictionary). When the distances between the probe and the stored embeddings are not
  negative, as Euclidean distances are, a returned match names a stored embedding of
  the student, which is at the least distance from the probe and below the threshold,
  and its similarity is \<open>1 - distance\<close> for the distance of that embedding, a number
  above \<open>0\<close> and at most \<open>1\<close>.
\<close>

theorem find_best_match_similarity:
  assumes "\<forall>c\<in>set (candidates sd). 0 \<le> candidate_distance fd fe c"
    and "find_best_match fd sd fe th = Some m"
  shows "\<exists>c\<in>set (candidates sd).
           studentId m = fst c \<and> studentName m = fst (snd c) \<and>
           similarity m = 1 - candidate_distance fd fe c \<and>
           candidate_distance fd fe c < th \<and>
           (\<forall>c'\<in>set (candidates sd).
              candidate_distance fd fe c \<le> candidate_distance fd fe c') \<and>
           0 < similarity m \<and> similarity m \<le> 1"
proof -
  let ?cd = "candidate_distance fd fe"
  from find_best_match_SomeD [OF assms(2)]
  obtain pre c post where w: "candidates sd = pre @ c # post"
    "m = candidate_match fd fe c" "?cd c < 1" "?cd c < th"
    "\<forall>x\<in>set pre. ?cd c < ?cd x" "\<forall>x\<in>set post. ?cd c \<le> ?cd x"
    by blast
  have mem: "c \<in> set (candidates sd)" by (simp add: w(1))
  with assms(1) have nonneg: "0 \<le> ?cd c" by blast
  have all: "\<forall>c'\<in>set (candidates sd). ?cd c \<le> ?cd c'"
    using w(5,6) unfolding w(1) by fastforce
  show ?thesis
    using mem nonneg all w(2,3,4) by (intro bexI [of _ c]) (simp_all add: candidate_match_def)
qed

text \<open>
  The probe \<open>[0, 0]\<close> is at distance \<open>1/2\<close> from Alice's embedding and \<open>3/2\<close> from Bob's.
\<close>

theorem find_best_match_similarity_witness:
  "list_all (\<lambda>c. 0 \<le> candidate_distance euclidean [0, 0] c)
     (candidates alice_bob_gallery) \<and>
   find_best_match euclidean alice_bob_gallery [0, 0] (3/5) =
     Some \<lparr>studentId = ''s1'', studentName = ''Alice'', similarity = 1/2\<rparr> \<and>
   (\<exists>c\<in>set (candidates alice_bob_gallery).
      ''s1'' = fst c \<and> ''Alice'' = fst (snd c) \<and>
      1/2 = 1 - candidate_distance euclidean [0, 0] c \<and>
      candidate_distance euclidean [0, 0] c < 3/5 \<and>
      (\<forall>c'\<in>set (candidates alice_bob_gallery).
         candidate_distance euclidean [0, 0] c \<le> candidate_distance euclidean [0, 0] c'))"
proof -
  have h1: "\<forall>c\<in>set (candidates alice_bob_gallery). 0 \<le> candidate_distance euclidean [0, 0] c"
    by (simp add: candidate_distance_def euclidean_nonneg)
  have h2: "find_best_match euclidean alice_bob_gallery [0, 0] (3/5) =
      Some \<lparr>studentId = ''s1'', studentName = ''Alice'', similarity = 1/2\<rparr>"
    by (simp add: example_simps)
  from find_best_match_similarity [OF h1 h2] h1 h2 show ?thesis
    unfolding list_all_iff by simp
qed

section \<open>Several probes\<close>

text \<open>
  C8. The loop of \<open>recognize_faces\<close> calls \<open>find_best_match\<close> (with the default
  threshold) on each probe by itself and collects, in the order of the probes, the
  matches of the probes that have one; a probe with no match leaves nothing in the
  list, so the list is at most as long as the list of probes. This list is what
  \<open>recognize_faces\<close> answers when the image decodes and shows at least one face.
\<close>

theorem recognize_faces_omits_unmatched:
  "encoding_loop fd sd probes [] =
     List.map_filter (\<lambda>probe. find_best_match fd sd probe default_threshold) probes \<and>
   length (encoding_loop fd sd probes []) \<le> length probes \<and>
   (b64 \<noteq> [] \<and> base64_to_image lib b64 = Some img \<and>
    face_locations lib img = Some locations \<and> locations \<noteq> [] \<and>
    face_encodings lib img locations = Some probes \<longrightarrow>
    recognize_faces lib sd (Some b64) =
      (Recognized (List.map_filter
         (\<lambda>probe. find_best_match (face_distance lib) sd probe default_threshold) probes), sd))"
  by (simp add: encoding_loop_map_filter length_map_filter recognize_faces_def)

text \<open>
  The picture \<open>class\<close> shows three faces: the first is Alice's embedding, the second is
  far from everybody, the third is Bob's. The answer has two matches, Alice then Bob.
\<close>

theorem recognize_faces_omits_unmatched_witness:
  "''class'' \<noteq> [] \<and>
   base64_to_image example_library ''class'' =
     Some [[3/10, 2/5], [9/5, 12/5], [9/10, 6/5]] \<and>
   face_locations example_library [[3/10, 2/5], [9/5, 12/5], [9/10, 6/5]] = Some [0, 1, 2] \<and>
   face_encodings example_library [[3/10, 2/5], [9/5, 12/5], [9/10, 6/5]] [0, 1, 2] =
     Some [[3/10, 2/5], [9/5, 12/5], [9/10, 6/5]] \<and>
   find_best_match euclidean alice_bob_gallery [9/5, 12/5] default_threshold = None \<and>
   recognize_faces example_library alice_bob_gallery (Some ''class'') =
     (Recognized [\<lparr>studentId = ''s1'', studentName = ''Alice'', similarity = 1\<rparr>,
                  \<lparr>studentId = ''s2'', studentName = ''Bob'', similarity = 1\<rparr>],
      alice_bob_gallery)"
proof -
  let ?img = "[[3/10, 2/5], [9/5, 12/5], [9/10, 6/5 :: real]]"
  have h1: "base64_to_image example_library ''class'' = Some ?img"
    by (simp add: example_library_def example_pictures_def)
  have h2: "face_locations example_library ?img = Some [0, 1, 2]"
    by (simp add: example_library_def upt_rec)
  have h3: "face_encodings example_library ?img [0, 1, 2] = Some ?img"
    by (simp add: example_library_def)
  have fd: "face_distance example_library = euclidean"
    by (simp add: example_library_def)
  have p1: "find_best_match euclidean alice_bob_gallery [3/10, 2/5] default_threshold =
      Some \<lparr>studentId = ''s1'', studentName = ''Alice'', similarity = 1\<rparr>"
    by (simp add: example_simps)
  have p2: "find_best_match euclidean alice_bob_gallery [9/5, 12/5] default_threshold = None"
    by (simp add: example_simps)
  have p3: "find_best_match euclidean alice_bob_gallery [9/10, 6/5] default_threshold =
      Some \<lparr>studentId = ''s2'', studentName = ''Bob'', similarity = 1\<rparr>"
    by (simp add: example_simps)
  from recognize_faces_omits_unmatched
         [of euclidean alice_bob_gallery ?img "''class''" example_library ?img "[0, 1, 2]"]
       h1 h2 h3 p1 p2 p3
  show ?thesis by (simp add: fd List.map_filter_simps)
qed

section \<open>The empty gallery\<close>

text \<open>
  C9. Against an empty \<open>students_data\<close>, \<open>find_best_match\<close> returns \<open>None\<close> for every probe
  and every threshold, whatever the distance function is: the first statement of the
  function returns before any distance is computed.
\<close>

theorem find_best_match_empty_gallery:
  "find_best_match fd [] face_encoding threshold = None"
  by (simp add: find_best_match_def)

section \<open>What a request leaves alone\<close>

text \<open>
  C10. A successful \<open>register_student\<close> changes the entry under the student's key
  only: the entries under the other keys are the same, in the same order, with the
  same identifier, name and descriptors. \<open>recognize_faces\<close>, and with it
  \<open>find_best_match\<close>, which gets the dictionary as an argument and returns a match only,
  leaves \<open>students_data\<close> as it is.
\<close>

theorem register_student_frame:
  "(register_student lib sd data = (Success, sd') \<longrightarrow>
      (\<exists>sid. reg_id data = Some sid \<and>
         filter (\<lambda>(k, s). k \<noteq> sid) sd' = filter (\<lambda>(k, s). k \<noteq> sid) sd \<and>
         (\<forall>k. k \<noteq> sid \<longrightarrow> map_of sd' k = map_of sd k))) \<and>
   snd (recognize_faces lib sd image_data) = sd"
proof (intro conjI impI)
  assume "register_student lib sd data = (Success, sd')"
  then obtain sid nm where r: "reg_id data = Some sid"
    "sd' = setitem sd sid \<lparr>id' = sid, name = nm,
                descriptors = image_loop lib (reg_images data) []\<rparr>"
    unfolding register_student_cases by blast
  show "\<exists>sid. reg_id data = Some sid \<and>
         filter (\<lambda>(k, s). k \<noteq> sid) sd' = filter (\<lambda>(k, s). k \<noteq> sid) sd \<and>
         (\<forall>k. k \<noteq> sid \<longrightarrow> map_of sd' k = map_of sd k)"
    using r(1) unfolding r(2) by (simp add: setitem_other map_of_setitem)
next
  show "snd (recognize_faces lib sd image_data) = sd" by (rule recognize_faces_store)
qed

text \<open>
  Bob is registered again, with the picture \<open>alice\<close>: his entry changes, Alice's entry
  is what it was, and it is still the first.
\<close>

theorem register_student_frame_witness:
  "register_student example_library alice_bob_gallery
       \<lparr>reg_id = Some ''s2'', reg_name = Some ''Robert'', reg_images = [''alice'']\<rparr> =
     (Success,
      [(''s1'', \<lparr>id' = ''s1'', name = ''Alice'', descriptors = [[3/10, 2/5]]\<rparr>),
       (''s2'', \<lparr>id' = ''s2'', name = ''Robert'', descriptors = [[3/10, 2/5]]\<rparr>)]) \<and>
   (\<exists>sid. Some ''s2'' = Some sid \<and>
      filter (\<lambda>(k, s). k \<noteq> sid)
          [(''s1'', \<lparr>id' = ''s1'', name = ''Alice'', descriptors = [[3/10, 2/5]]\<rparr>),
           (''s2'', \<lparr>id' = ''s2'', name = ''Robert'', descriptors = [[3/10, 2/5]]\<rparr>)] =
        filter (\<lambda>(k, s). k \<noteq> sid) alice_bob_gallery) \<and>
   snd (recognize_faces example_library alice_bob_gallery (Some ''class'')) =
     alice_bob_gallery"
proof -
  let ?data = "\<lparr>reg_id = Some ''s2'', reg_name = Some ''Robert'', reg_images = [''alice'']\<rparr>"
  let ?sd' = "[(''s1'', \<lparr>id' = ''s1'', name = ''Alice'', descriptors = [[3/10, 2/5 :: real]]\<rparr>),
       (''s2'', \<lparr>id' = ''s2'', name = ''Robert'', descriptors = [[3/10, 2/5]]\<rparr>)]"
  have h: "register_student example_library alice_bob_gallery ?data = (Success, ?sd')"
    by (simp add: example_simps)
  from register_student_frame
         [of example_library alice_bob_gallery ?data ?sd' "Some ''class''"] h
  show ?thesis by simp
qed

end
